theory Spec2Isabelle
  imports Main
begin

section \<open>The email assistant of notebooks/module-3/email\_assistant.py\<close>

text \<open>
  The script keeps a session state with three channels (the conversation \<open>messages\<close>,
  the \<open>inbox\<close> and the list \<open>processed_ids\<close>), four tools that read this state, a
  prompt function, and a command-line loop that turns the operator's typed lines into
  decisions about proposed tool calls. Strings are byte lists: a character outside
  ASCII in a literal of the script is written as its UTF-8 bytes.
\<close>

subsection \<open>Data\<close>

text \<open>An inbox entry: a dict with the keys \<open>id\<close>, \<open>from\<close>, \<open>subject\<close>, \<open>body\<close>.\<close>

record email =
  email_id :: string
  email_from :: string
  email_subject :: string
  email_body :: string

datatype message =
  HumanMessage string
  | ToolMessage string string

text \<open>
  \<open>InboxState\<close> extends the agent state, whose only channel is \<open>messages\<close>, by the
  two declared keys.
\<close>

record InboxState =
  messages :: "message list"
  inbox :: "email list"
  processed_ids :: "string list"

record ToolRuntime =
  runtime_state :: InboxState
  tool_call_id :: string

record ModelRequest =
  request_state :: InboxState

text \<open>
  A \<open>Command(update={...})\<close> carries a dict from channel names to new values. The
  value type has a constructor for every channel of \<open>InboxState\<close>, so that an update of
  the inbox is expressible and its absence is a property of the tools, not of the type.
\<close>

datatype update_value =
  MessagesValue "message list"
  | InboxValue "email list"
  | IdsValue "string list"

type_synonym Command = "(string \<times> update_value) list"

definition SAMPLE_INBOX :: "email list" where
  "SAMPLE_INBOX =
    [\<lparr>email_id = ''1'', email_from = ''jane@example.com'',
      email_subject = ''Coffee this weekend?'',
      email_body = ''Hey! Are you free this Saturday for coffee? I found a great new caf''
        @ [CHR 0xC3, CHR 0xA9] @ '' downtown. Let me know!''\<rparr>,
     \<lparr>email_id = ''2'', email_from = ''boss@company.com'',
      email_subject = ''Q3 Report Review'',
      email_body = ''Hi, could you review the Q3 report and send me your comments by end of day Thursday? Thanks.''\<rparr>,
     \<lparr>email_id = ''3'', email_from = ''deals@spammy-cruises.biz'',
      email_subject = ''YOU WON A FREE CRUISE!!!'',
      email_body = ''Congratulations! You have been selected for a FREE luxury cruise. Click here to claim your prize now!!!''\<rparr>,
     \<lparr>email_id = ''4'', email_from = ''mike@example.com'',
      email_subject = ''Hike on Sunday?'',
      email_body = ''Hey, a group of us are hiking the ridge trail this Sunday morning. Want to join? We''
        @ [CHR 0x27] @ ''re meeting at 8am at the trailhead.''\<rparr>,
     \<lparr>email_id = ''5'', email_from = ''hr@company.com'',
      email_subject = ''Mandatory Compliance Training Reminder'',
      email_body = ''This is a reminder that all employees must complete the annual compliance training module by Friday. Please log in to the training portal to complete it.''\<rparr>]"

subsection \<open>Tools\<close>

text \<open>\<open>sep.join(lines)\<close> of Python.\<close>

fun join :: "string \<Rightarrow> string list \<Rightarrow> string" where
  "join sep [] = []"
| "join sep [x] = x"
| "join sep (x # y # ys) = x @ sep @ join sep (y # ys)"

text \<open>
  \<open>check_inbox\<close>: the loop appends one formatted line per inbox entry to \<open>lines\<close>;
  the tool returns the lines joined by a newline.
\<close>

definition inbox_line :: "string list \<Rightarrow> email \<Rightarrow> string" where
  "inbox_line pids e =
    (let status = (if email_id e \<in> set pids then ''[DONE]'' else ''[NEW]'')
     in status @ '' ID:'' @ email_id e @ '' From:'' @ email_from e
        @ '' Subject:'' @ email_subject e)"

fun check_inbox_loop :: "email list \<Rightarrow> string list \<Rightarrow> string list \<Rightarrow> string list" where
  "check_inbox_loop [] pids lines = lines"
| "check_inbox_loop (e # es) pids lines = check_inbox_loop es pids (lines @ [inbox_line pids e])"

definition check_inbox :: "ToolRuntime \<Rightarrow> string" where
  "check_inbox runtime =
    (let inbox0 = inbox (runtime_state runtime);
         pids = processed_ids (runtime_state runtime);
         lines = check_inbox_loop inbox0 pids []
     in join [CHR 0x0A] lines)"

text \<open>\<open>read_email\<close>: the first entry with the id is formatted; none gives the not-found text.\<close>

definition not_found_text :: "string \<Rightarrow> string" where
  "not_found_text eid = ''Email with ID '' @ eid @ '' not found.''"

fun read_email_loop :: "email list \<Rightarrow> string \<Rightarrow> string" where
  "read_email_loop [] eid = not_found_text eid"
| "read_email_loop (e # es) eid =
    (if email_id e = eid
     then ''From: '' @ email_from e @ [CHR 0x0A] @ ''Subject: '' @ email_subject e
          @ [CHR 0x0A] @ ''Body: '' @ email_body e
     else read_email_loop es eid)"

definition read_email :: "string \<Rightarrow> ToolRuntime \<Rightarrow> string" where
  "read_email eid runtime = read_email_loop (inbox (runtime_state runtime)) eid"

text \<open>
  \<open>reply_to_email\<close>: the search loop leaves \<open>recipient\<close> at \<open>None\<close> or at the sender of
  the first entry with the id (\<open>break\<close>). Not found: a Command whose update has the key
  \<open>messages\<close> only. Found: a copy of \<open>processed_ids\<close> with the id appended, and the
  confirmation message.
\<close>

fun find_recipient :: "email list \<Rightarrow> string \<Rightarrow> string option" where
  "find_recipient [] eid = None"
| "find_recipient (e # es) eid =
    (if email_id e = eid then Some (email_from e) else find_recipient es eid)"

definition reply_to_email :: "string \<Rightarrow> string \<Rightarrow> ToolRuntime \<Rightarrow> Command" where
  "reply_to_email eid body runtime =
    (case find_recipient (inbox (runtime_state runtime)) eid of
       None \<Rightarrow>
         [(''messages'', MessagesValue [ToolMessage (not_found_text eid) (tool_call_id runtime)])]
     | Some recipient \<Rightarrow>
         (let pids = processed_ids (runtime_state runtime) @ [eid]
          in [(''processed_ids'', IdsValue pids),
              (''messages'', MessagesValue
                 [ToolMessage (''Reply sent to '' @ recipient @ '': '' @ body)
                    (tool_call_id runtime)])]))"

text \<open>\<open>delete_email\<close>: \<open>found\<close> is \<open>any(email["id"] == email_id for email in inbox)\<close>.\<close>

definition delete_email :: "string \<Rightarrow> ToolRuntime \<Rightarrow> Command" where
  "delete_email eid runtime =
    (let found = list_ex (\<lambda>e. email_id e = eid) (inbox (runtime_state runtime))
     in if \<not> found
        then [(''messages'', MessagesValue [ToolMessage (not_found_text eid) (tool_call_id runtime)])]
        else (let pids = processed_ids (runtime_state runtime) @ [eid]
              in [(''processed_ids'', IdsValue pids),
                  (''messages'', MessagesValue
                     [ToolMessage (''Email '' @ eid @ '' deleted.'') (tool_call_id runtime)])]))"

subsection \<open>The dynamic prompt\<close>

text \<open>\<open>str(n)\<close> of a non-negative Python int: its decimal digits.\<close>

fun str_nat :: "nat \<Rightarrow> string" where
  "str_nat n =
    (if n < 10 then [char_of (48 + n)]
     else str_nat (n div 10) @ [char_of (48 + n mod 10)])"

declare str_nat.simps [simp del]

text \<open>
  \<open>remaining\<close> is the local variable of \<open>inbox_prompt\<close>: the length of the list
  comprehension \<open>[e for e in inbox if e["id"] not in processed_ids]\<close>.
\<close>

definition remaining :: "InboxState \<Rightarrow> nat" where
  "remaining s = length (filter (\<lambda>e. email_id e \<notin> set (processed_ids s)) (inbox s))"

definition all_processed_prompt :: string where
  "all_processed_prompt =
    ''All emails have been processed. Let the user know you are done ''
    @ ''and summarize the actions you took.''"

definition working_prompt :: "nat \<Rightarrow> string" where
  "working_prompt n =
    ''You are an email assistant. There are '' @ str_nat n
    @ '' unprocessed email(s) in the inbox. ''
    @ ''Work through them one at a time: check the inbox, read each unprocessed email, ''
    @ ''then either reply or delete it. For spam or junk mail, delete it. ''
    @ ''For legitimate emails, draft a polite reply. ''
    @ ''Always use the reply_to_email or delete_email tools to take action ''
    @ [CHR 0xE2, CHR 0x80, CHR 0x94] @ '' never just describe what you would do.''"

definition inbox_prompt :: "ModelRequest \<Rightarrow> string" where
  "inbox_prompt request =
    (let n = remaining (request_state request)
     in if n = 0 then all_processed_prompt else working_prompt n)"

subsection \<open>The runtime boundary\<close>

text \<open>
  Modelled from the spec: the merge of a Command's update into the session state and the
  dispatch of a tool call are done by the imported agent framework, which is not under
  src/. A channel that the update does not name keeps its value; \<open>inbox\<close> and
  \<open>processed_ids\<close> are overwritten by the value given; the messages given are appended
  to \<open>messages\<close>. A tool that returns text has that text appended as a tool message.
  A call whose name or arguments fit no tool is outside the model (\<open>None\<close>).
\<close>

definition apply_update :: "InboxState \<Rightarrow> Command \<Rightarrow> InboxState" where
  "apply_update s upd =
    s\<lparr>messages :=
        (case map_of upd ''messages'' of
           Some (MessagesValue ms) \<Rightarrow> messages s @ ms
         | _ \<Rightarrow> messages s),
      inbox :=
        (case map_of upd ''inbox'' of
           Some (InboxValue v) \<Rightarrow> v
         | _ \<Rightarrow> inbox s),
      processed_ids :=
        (case map_of upd ''processed_ids'' of
           Some (IdsValue v) \<Rightarrow> v
         | _ \<Rightarrow> processed_ids s)\<rparr>"

definition add_tool_text :: "InboxState \<Rightarrow> string \<Rightarrow> string \<Rightarrow> InboxState" where
  "add_tool_text s txt cid = s\<lparr>messages := messages s @ [ToolMessage txt cid]\<rparr>"

definition run_command :: "(ToolRuntime \<Rightarrow> Command) \<Rightarrow> string \<Rightarrow> InboxState \<Rightarrow> InboxState" where
  "run_command tool cid s = apply_update s (tool \<lparr>runtime_state = s, tool_call_id = cid\<rparr>)"

definition call_tool ::
  "string \<Rightarrow> (string \<times> string) list \<Rightarrow> string \<Rightarrow> InboxState \<Rightarrow> InboxState option" where
  "call_tool nm args cid s =
    (let runtime = \<lparr>runtime_state = s, tool_call_id = cid\<rparr>
     in if nm = ''check_inbox'' then Some (add_tool_text s (check_inbox runtime) cid)
        else if nm = ''read_email'' then
          (case map_of args ''email_id'' of
             Some eid \<Rightarrow> Some (add_tool_text s (read_email eid runtime) cid)
           | None \<Rightarrow> None)
        else if nm = ''reply_to_email'' then
          (case (map_of args ''email_id'', map_of args ''body'') of
             (Some eid, Some body) \<Rightarrow> Some (run_command (reply_to_email eid body) cid s)
           | _ \<Rightarrow> None)
        else if nm = ''delete_email'' then
          (case map_of args ''email_id'' of
             Some eid \<Rightarrow> Some (run_command (delete_email eid) cid s)
           | None \<Rightarrow> None)
        else None)"

text \<open>A session's tool activity: any sequence of calls, each on the state the last left.\<close>

fun run_calls ::
  "(string \<times> (string \<times> string) list \<times> string) list \<Rightarrow> InboxState \<Rightarrow> InboxState option" where
  "run_calls [] s = Some s"
| "run_calls ((nm, args, cid) # cs) s =
    (case call_tool nm args cid s of None \<Rightarrow> None | Some s' \<Rightarrow> run_calls cs s')"

text \<open>
  The state of the first invocation (lines 222 to 234), and the set of ids that the
  list \<open>processed_ids\<close> stands for: the tools and the prompt only ever ask whether an
  id is in the list.
\<close>

definition initial_state :: InboxState where
  "initial_state =
    \<lparr>messages =
       [HumanMessage (''Please process all emails in my inbox. ''
          @ ''Check the inbox first, then read and handle each email one at a time.'')],
     inbox = SAMPLE_INBOX,
     processed_ids = []\<rparr>"

definition ProcessedSet :: "InboxState \<Rightarrow> string set" where
  "ProcessedSet s = set (processed_ids s)"

subsection \<open>The command-line decision loop\<close>

text \<open>
  The operator's terminal is the list of lines still to be read; \<open>input()\<close> takes the
  first and raises \<open>EOFError\<close> when there is none. A line is the UTF-8 encoding of
  the Python string. What the loop prints is not modelled.
\<close>

datatype py_error = EOFError | NameError

record action_request =
  request_name :: string
  request_args :: "(string \<times> string) list"

datatype decision =
  Approve
  | Reject string
  | Edit string "(string \<times> string) list"

text \<open>
  \<open>strip()\<close> removes white space at both ends. The white space of a Python string is
  the code points 9 to 13, 28 to 32, U+0085, U+00A0, U+1680, U+2000 to U+200A, U+2028,
  U+2029, U+202F, U+205F and U+3000; \<open>white_space\<close> lists their UTF-8 encodings. In
  UTF-8 text a code point starts the text exactly when its encoding is a prefix of the
  bytes, and ends it exactly when its encoding is a suffix.
\<close>

definition white_space :: "string list" where
  "white_space =
    [[CHR 0x09], [CHR 0x0A], [CHR 0x0B], [CHR 0x0C], [CHR 0x0D],
     [CHR 0x1C], [CHR 0x1D], [CHR 0x1E], [CHR 0x1F], [CHR 0x20],
     [CHR 0xC2, CHR 0x85], [CHR 0xC2, CHR 0xA0],
     [CHR 0xE1, CHR 0x9A, CHR 0x80],
     [CHR 0xE2, CHR 0x80, CHR 0x80], [CHR 0xE2, CHR 0x80, CHR 0x81],
     [CHR 0xE2, CHR 0x80, CHR 0x82], [CHR 0xE2, CHR 0x80, CHR 0x83],
     [CHR 0xE2, CHR 0x80, CHR 0x84], [CHR 0xE2, CHR 0x80, CHR 0x85],
     [CHR 0xE2, CHR 0x80, CHR 0x86], [CHR 0xE2, CHR 0x80, CHR 0x87],
     [CHR 0xE2, CHR 0x80, CHR 0x88], [CHR 0xE2, CHR 0x80, CHR 0x89],
     [CHR 0xE2, CHR 0x80, CHR 0x8A],
     [CHR 0xE2, CHR 0x80, CHR 0xA8], [CHR 0xE2, CHR 0x80, CHR 0xA9],
     [CHR 0xE2, CHR 0x80, CHR 0xAF], [CHR 0xE2, CHR 0x81, CHR 0x9F],
     [CHR 0xE3, CHR 0x80, CHR 0x80]]"

text \<open>
  The number of bytes of the first code of the table that the string starts with, 0 when
  it starts with none; and the string without every such code at its start.
\<close>

definition space_len :: "string list \<Rightarrow> string \<Rightarrow> nat" where
  "space_len codes s =
    (case find (\<lambda>c. take (length c) s = c) codes of
       None \<Rightarrow> 0
     | Some c \<Rightarrow> length c)"

function drop_spaces :: "string list \<Rightarrow> string \<Rightarrow> string" where
  "drop_spaces codes s =
    (if space_len codes s = 0 then s else drop_spaces codes (drop (space_len codes s) s))"
  by pat_completeness auto
termination
proof (relation "measure (\<lambda>(codes, s). length s)")
  show "wf (measure (\<lambda>(codes, s). length s))"
    by simp
next
  fix codes :: "string list" and s :: string
  assume n: "space_len codes s \<noteq> 0"
  have "s \<noteq> []"
  proof
    assume "s = []"
    then have "space_len codes s = 0"
      by (auto simp add: space_len_def find_Some_iff split: option.splits)
    with n show False by simp
  qed
  with n show "((codes, drop (space_len codes s) s), (codes, s)) \<in> measure (\<lambda>(codes, s). length s)"
    by simp
qed

declare drop_spaces.simps [simp del]

definition strip :: "string \<Rightarrow> string" where
  "strip s = rev (drop_spaces (map rev white_space) (rev (drop_spaces white_space s)))"

text \<open>
  \<open>lower()\<close> maps A..Z to a..z; the bytes of a code point outside ASCII are left as they
  are. Python's \<open>lower()\<close> also changes letters outside ASCII, but no code point outside
  ASCII has a lower case in which \<open>a\<close>, \<open>r\<close> or \<open>e\<close> occurs, so the comparisons of
  \<open>choice\<close> with these letters, the only use of the result, come out the same.
\<close>

definition lower_char :: "char \<Rightarrow> char" where
  "lower_char c =
    (let n = (of_char c :: nat) in if 65 \<le> n \<and> n \<le> 90 then char_of (n + 32) else c)"

definition lower :: "string \<Rightarrow> string" where
  "lower s = map lower_char s"

text \<open>\<open>d[key] = value\<close> on a dict kept in insertion order.\<close>

fun dict_set :: "(string \<times> string) list \<Rightarrow> string \<Rightarrow> string \<Rightarrow> (string \<times> string) list" where
  "dict_set [] k v = [(k, v)]"
| "dict_set (p # ps) k v = (if fst p = k then (k, v) # ps else p # dict_set ps k v)"

text \<open>
  The edit branch: for every key of \<open>tool_args\<close>, in order, one line is read and
  stripped; a non-empty line replaces the value of that key in \<open>edited_args\<close>.
\<close>

fun edit_loop ::
  "string list \<Rightarrow> (string \<times> string) list \<Rightarrow> string list
    \<Rightarrow> py_error + ((string \<times> string) list \<times> string list)" where
  "edit_loop [] edited_args ins = Inr (edited_args, ins)"
| "edit_loop (key # keys) edited_args [] = Inl EOFError"
| "edit_loop (key # keys) edited_args (l # ins) =
    (let new_val = strip l
     in edit_loop keys (if new_val \<noteq> [] then dict_set edited_args key new_val else edited_args) ins)"

text \<open>The body of the \<open>for\<close> loop for one action request: the decision it assigns.\<close>

fun prompt_decision ::
  "action_request \<Rightarrow> string list \<Rightarrow> py_error + (decision \<times> string list)" where
  "prompt_decision action [] = Inl EOFError"
| "prompt_decision action (l # ins) =
    (let tool_name = request_name action;
         tool_args = request_args action;
         choice = lower (strip l)
     in if choice = ''a'' then Inr (Approve, ins)
        else if choice = ''r'' then
          (case ins of
             [] \<Rightarrow> Inl EOFError
           | l2 # ins2 \<Rightarrow> Inr (Reject (strip l2), ins2))
        else if choice = ''e'' then
          (case edit_loop (map fst tool_args) tool_args ins of
             Inl err \<Rightarrow> Inl err
           | Inr (edited_args, ins2) \<Rightarrow> Inr (Edit tool_name edited_args, ins2))
        else Inr (Approve, ins))"

text \<open>
  The \<open>for\<close> loop over \<open>action_requests\<close>. The variable \<open>decision\<close> is assigned in
  every pass and read once after the loop; it is \<open>None\<close> while unbound, and it keeps
  its value from one pass of the enclosing \<open>while\<close> to the next.
\<close>

fun collect_decisions ::
  "action_request list \<Rightarrow> decision option \<Rightarrow> string list
    \<Rightarrow> py_error + (decision option \<times> string list)" where
  "collect_decisions [] d ins = Inr (d, ins)"
| "collect_decisions (action # actions) d ins =
    (case prompt_decision action ins of
       Inl err \<Rightarrow> Inl err
     | Inr (d', ins') \<Rightarrow> collect_decisions actions (Some d') ins')"

text \<open>
  One pass of the \<open>while\<close> loop up to the resume call: the list given as
  \<open>decisions\<close> in \<open>Command(resume={"decisions": [decision]})\<close>, with the terminal left.
\<close>

definition resume_decisions ::
  "action_request list \<Rightarrow> decision option \<Rightarrow> string list
    \<Rightarrow> py_error + (decision list \<times> string list)" where
  "resume_decisions action_requests d0 ins =
    (case collect_decisions action_requests d0 ins of
       Inl err \<Rightarrow> Inl err
     | Inr (None, ins') \<Rightarrow> Inl NameError
     | Inr (Some d, ins') \<Rightarrow> Inr ([d], ins'))"

text \<open>
  Modelled from the spec: the action gate's \<open>resolve\<close> (section 4.2), which the script
  leaves to the framework's human-in-the-loop middleware, not under src/. Approve applies
  the request as proposed; edit applies the edited action; reject applies nothing, and
  its reason is surfaced to the runtime as a message.
\<close>

definition resolve ::
  "action_request \<Rightarrow> decision \<Rightarrow> string \<Rightarrow> InboxState \<Rightarrow> InboxState option" where
  "resolve action d cid s =
    (case d of
       Approve \<Rightarrow> call_tool (request_name action) (request_args action) cid s
     | Edit nm args \<Rightarrow> call_tool nm args cid s
     | Reject reason \<Rightarrow> Some (add_tool_text s reason cid))"

section \<open>Properties\<close>

subsection \<open>Facts about the tools\<close>

lemma check_inbox_loop_map:
  "check_inbox_loop es pids lines = lines @ map (inbox_line pids) es"
  by (induction es arbitrary: lines) simp_all

lemma find_recipient_None:
  "find_recipient es eid = None \<longleftrightarrow> eid \<notin> set (map email_id es)"
  by (induction es) auto

lemma list_ex_email_id:
  "list_ex (\<lambda>e. email_id e = eid) es \<longleftrightarrow> eid \<in> set (map email_id es)"
  by (induction es) auto

lemma reply_not_found:
  "eid \<notin> set (map email_id (inbox (runtime_state rt))) \<Longrightarrow>
   reply_to_email eid body rt =
     [(''messages'', MessagesValue [ToolMessage (not_found_text eid) (tool_call_id rt)])]"
  by (simp add: reply_to_email_def find_recipient_None[THEN iffD2])

lemma delete_not_found:
  "eid \<notin> set (map email_id (inbox (runtime_state rt))) \<Longrightarrow>
   delete_email eid rt =
     [(''messages'', MessagesValue [ToolMessage (not_found_text eid) (tool_call_id rt)])]"
  by (simp add: delete_email_def list_ex_email_id)

lemma delete_found:
  "eid \<in> set (map email_id (inbox (runtime_state rt))) \<Longrightarrow>
   delete_email eid rt =
     [(''processed_ids'', IdsValue (processed_ids (runtime_state rt) @ [eid])),
      (''messages'', MessagesValue [ToolMessage (''Email '' @ eid @ '' deleted.'') (tool_call_id rt)])]"
  by (simp add: delete_email_def list_ex_email_id)

lemma reply_found:
  "eid \<in> set (map email_id (inbox (runtime_state rt))) \<Longrightarrow>
   \<exists>recipient. reply_to_email eid body rt =
     [(''processed_ids'', IdsValue (processed_ids (runtime_state rt) @ [eid])),
      (''messages'', MessagesValue
         [ToolMessage (''Reply sent to '' @ recipient @ '': '' @ body) (tool_call_id rt)])]"
proof -
  assume "eid \<in> set (map email_id (inbox (runtime_state rt)))"
  then have "find_recipient (inbox (runtime_state rt)) eid \<noteq> None"
    by (simp add: find_recipient_None)
  then obtain r where "find_recipient (inbox (runtime_state rt)) eid = Some r" by blast
  then show ?thesis by (simp add: reply_to_email_def)
qed

lemma run_delete_state:
  "run_command (delete_email eid) cid s =
    (if eid \<in> set (map email_id (inbox s))
     then s\<lparr>messages := messages s @ [ToolMessage (''Email '' @ eid @ '' deleted.'') cid],
            processed_ids := processed_ids s @ [eid]\<rparr>
     else s\<lparr>messages := messages s @ [ToolMessage (not_found_text eid) cid]\<rparr>)"
  by (simp add: run_command_def apply_update_def delete_found delete_not_found)

lemma run_reply_inbox: "inbox (run_command (reply_to_email eid body) cid s) = inbox s"
  by (simp add: run_command_def apply_update_def reply_to_email_def split: option.splits)

lemma run_reply_pids:
  "processed_ids (run_command (reply_to_email eid body) cid s) =
    (if eid \<in> set (map email_id (inbox s)) then processed_ids s @ [eid] else processed_ids s)"
  using find_recipient_None[of "inbox s" eid]
  by (auto simp add: run_command_def apply_update_def reply_to_email_def split: option.splits)

lemma call_tool_inbox: "call_tool nm args cid s = Some s' \<Longrightarrow> inbox s' = inbox s"
  by (auto simp add: call_tool_def Let_def add_tool_text_def run_reply_inbox run_delete_state
      split: if_splits option.splits)

lemma run_calls_inbox: "run_calls cs s = Some s' \<Longrightarrow> inbox s' = inbox s"
proof (induction cs arbitrary: s)
  case Nil
  then show ?case by simp
next
  case (Cons c cs)
  obtain nm args cid where c: "c = (nm, args, cid)" by (cases c)
  from Cons.prems c obtain s1 where
    s1: "call_tool nm args cid s = Some s1" and rest: "run_calls cs s1 = Some s'"
    by (auto split: option.splits)
  from Cons.IH[OF rest] call_tool_inbox[OF s1] show ?case by simp
qed


subsection \<open>Listing, the constant inbox, unknown ids\<close>

lemma inbox_line_status:
  "inbox_line pids e =
    (if email_id e \<in> set pids then ''[DONE]'' else ''[NEW]'')
    @ '' ID:'' @ email_id e @ '' From:'' @ email_from e @ '' Subject:'' @ email_subject e"
  by (simp add: inbox_line_def)

text \<open>\<open>join\<close> with a one-character separator, written with \<open>concat\<close>.\<close>

lemma join_concat:
  "join [c] xs = (case xs of [] \<Rightarrow> [] | x # ys \<Rightarrow> x @ concat (map (\<lambda>y. c # y) ys))"
  by (induction "[c]" xs rule: join.induct) simp_all

text \<open>
  Claim C9. For every inbox and every list of processed ids, \<open>check_inbox\<close> builds one
  line per inbox entry, in inbox order, tagged \<open>[DONE]\<close> when the entry's id is among the
  processed ids and \<open>[NEW]\<close> otherwise, and the text it returns is these lines with a
  newline between each two: empty for an empty inbox, otherwise the first line followed
  by a newline and the next line for every further entry. The tool returns text only:
  the state after the call is the state before it with the text appended as a tool
  message, so the inbox and the processed ids are as they were.
\<close>

theorem check_inbox_lists:
  "check_inbox_loop (inbox s) (processed_ids s) [] =
     map (\<lambda>e. (if email_id e \<in> ProcessedSet s then ''[DONE]'' else ''[NEW]'')
               @ '' ID:'' @ email_id e @ '' From:'' @ email_from e
               @ '' Subject:'' @ email_subject e) (inbox s)
   \<and> check_inbox \<lparr>runtime_state = s, tool_call_id = cid\<rparr> =
       (case map (\<lambda>e. (if email_id e \<in> ProcessedSet s then ''[DONE]'' else ''[NEW]'')
                       @ '' ID:'' @ email_id e @ '' From:'' @ email_from e
                       @ '' Subject:'' @ email_subject e) (inbox s) of
          [] \<Rightarrow> []
        | x # xs \<Rightarrow> x @ concat (map (\<lambda>y. CHR 0x0A # y) xs))
   \<and> check_inbox \<lparr>runtime_state = s, tool_call_id = cid\<rparr> =
       join [CHR 0x0A] (check_inbox_loop (inbox s) (processed_ids s) [])
   \<and> call_tool ''check_inbox'' args cid s =
       Some (s\<lparr>messages := messages s
                @ [ToolMessage (check_inbox \<lparr>runtime_state = s, tool_call_id = cid\<rparr>) cid]\<rparr>)"
proof -
  have lines: "check_inbox_loop (inbox s) (processed_ids s) [] =
     map (\<lambda>e. (if email_id e \<in> ProcessedSet s then ''[DONE]'' else ''[NEW]'')
               @ '' ID:'' @ email_id e @ '' From:'' @ email_from e
               @ '' Subject:'' @ email_subject e) (inbox s)"
    by (simp add: check_inbox_loop_map inbox_line_status ProcessedSet_def)
  have joined: "check_inbox \<lparr>runtime_state = s, tool_call_id = cid\<rparr> =
       join [CHR 0x0A] (check_inbox_loop (inbox s) (processed_ids s) [])"
    by (simp add: check_inbox_def)
  have listing: "check_inbox \<lparr>runtime_state = s, tool_call_id = cid\<rparr> =
       (case map (\<lambda>e. (if email_id e \<in> ProcessedSet s then ''[DONE]'' else ''[NEW]'')
                       @ '' ID:'' @ email_id e @ '' From:'' @ email_from e
                       @ '' Subject:'' @ email_subject e) (inbox s) of
          [] \<Rightarrow> []
        | x # xs \<Rightarrow> x @ concat (map (\<lambda>y. CHR 0x0A # y) xs))"
    unfolding joined lines by (subst join_concat) simp
  have call: "call_tool ''check_inbox'' args cid s =
       Some (s\<lparr>messages := messages s
                @ [ToolMessage (check_inbox \<lparr>runtime_state = s, tool_call_id = cid\<rparr>) cid]\<rparr>)"
    by (simp add: call_tool_def add_tool_text_def)
  from lines listing joined call show ?thesis by blast
qed

theorem check_inbox_lists_witness:
  "check_inbox_loop (inbox (initial_state\<lparr>processed_ids := [''1'', ''3'']\<rparr>))
      (processed_ids (initial_state\<lparr>processed_ids := [''1'', ''3'']\<rparr>)) [] =
     [''[DONE] ID:1 From:jane@example.com Subject:Coffee this weekend?'',
      ''[NEW] ID:2 From:boss@company.com Subject:Q3 Report Review'',
      ''[DONE] ID:3 From:deals@spammy-cruises.biz Subject:YOU WON A FREE CRUISE!!!'',
      ''[NEW] ID:4 From:mike@example.com Subject:Hike on Sunday?'',
      ''[NEW] ID:5 From:hr@company.com Subject:Mandatory Compliance Training Reminder'']
   \<and> check_inbox \<lparr>runtime_state = initial_state\<lparr>processed_ids := [''1'', ''3'']\<rparr>,
                   tool_call_id = ''c1''\<rparr> =
       ''[DONE] ID:1 From:jane@example.com Subject:Coffee this weekend?'' @ [CHR 0x0A]
       @ ''[NEW] ID:2 From:boss@company.com Subject:Q3 Report Review'' @ [CHR 0x0A]
       @ ''[DONE] ID:3 From:deals@spammy-cruises.biz Subject:YOU WON A FREE CRUISE!!!'' @ [CHR 0x0A]
       @ ''[NEW] ID:4 From:mike@example.com Subject:Hike on Sunday?'' @ [CHR 0x0A]
       @ ''[NEW] ID:5 From:hr@company.com Subject:Mandatory Compliance Training Reminder''"
proof -
  note t = check_inbox_lists [of "initial_state\<lparr>processed_ids := [''1'', ''3'']\<rparr>" "''c1''"]
  have a: "check_inbox_loop (inbox (initial_state\<lparr>processed_ids := [''1'', ''3'']\<rparr>))
      (processed_ids (initial_state\<lparr>processed_ids := [''1'', ''3'']\<rparr>)) [] =
     [''[DONE] ID:1 From:jane@example.com Subject:Coffee this weekend?'',
      ''[NEW] ID:2 From:boss@company.com Subject:Q3 Report Review'',
      ''[DONE] ID:3 From:deals@spammy-cruises.biz Subject:YOU WON A FREE CRUISE!!!'',
      ''[NEW] ID:4 From:mike@example.com Subject:Hike on Sunday?'',
      ''[NEW] ID:5 From:hr@company.com Subject:Mandatory Compliance Training Reminder'']"
    unfolding t [THEN conjunct1]
    by (simp add: initial_state_def SAMPLE_INBOX_def ProcessedSet_def)
  have b: "check_inbox \<lparr>runtime_state = initial_state\<lparr>processed_ids := [''1'', ''3'']\<rparr>,
                   tool_call_id = ''c1''\<rparr> =
       ''[DONE] ID:1 From:jane@example.com Subject:Coffee this weekend?'' @ [CHR 0x0A]
       @ ''[NEW] ID:2 From:boss@company.com Subject:Q3 Report Review'' @ [CHR 0x0A]
       @ ''[DONE] ID:3 From:deals@spammy-cruises.biz Subject:YOU WON A FREE CRUISE!!!'' @ [CHR 0x0A]
       @ ''[NEW] ID:4 From:mike@example.com Subject:Hike on Sunday?'' @ [CHR 0x0A]
       @ ''[NEW] ID:5 From:hr@company.com Subject:Mandatory Compliance Training Reminder''"
    unfolding t [THEN conjunct2, THEN conjunct1]
    by (simp add: initial_state_def SAMPLE_INBOX_def ProcessedSet_def)
  from a b show ?thesis by simp
qed

text \<open>
  Claim C10. No tool call changes the inbox: after any sequence of tool calls the
  \<open>inbox\<close> field is the list it was at the start, same entries in the same order, and
  the updates returned by \<open>reply_to_email\<close> and \<open>delete_email\<close> name no channel
  other than \<open>processed_ids\<close> and \<open>messages\<close>.
\<close>

theorem inbox_constant:
  assumes "run_calls cs s = Some s'"
  shows "inbox s' = inbox s
    \<and> fst ` set (reply_to_email eid body rt) \<subseteq> {''processed_ids'', ''messages''}
    \<and> fst ` set (delete_email eid rt) \<subseteq> {''processed_ids'', ''messages''}"
proof -
  have "fst ` set (reply_to_email eid body rt) \<subseteq> {''processed_ids'', ''messages''}"
    by (simp add: reply_to_email_def split: option.splits)
  moreover have "fst ` set (delete_email eid rt) \<subseteq> {''processed_ids'', ''messages''}"
    by (simp add: delete_email_def)
  ultimately show ?thesis using run_calls_inbox[OF assms] by simp
qed

lemma initial_ids: "map email_id (inbox initial_state) = [''1'', ''2'', ''3'', ''4'', ''5'']"
  by (simp add: initial_state_def SAMPLE_INBOX_def)

theorem inbox_constant_witness:
  "run_calls [(''delete_email'', [(''email_id'', ''3'')], ''c1'')] initial_state =
     Some (initial_state\<lparr>messages := messages initial_state @ [ToolMessage ''Email 3 deleted.'' ''c1''],
                         processed_ids := processed_ids initial_state @ [''3'']\<rparr>)
   \<and> inbox (initial_state\<lparr>messages := messages initial_state @ [ToolMessage ''Email 3 deleted.'' ''c1''],
                         processed_ids := processed_ids initial_state @ [''3'']\<rparr>) = inbox initial_state
   \<and> fst ` set (reply_to_email ''3'' ''Sure'' \<lparr>runtime_state = initial_state, tool_call_id = ''c1''\<rparr>)
        \<subseteq> {''processed_ids'', ''messages''}
   \<and> fst ` set (delete_email ''3'' \<lparr>runtime_state = initial_state, tool_call_id = ''c1''\<rparr>)
        \<subseteq> {''processed_ids'', ''messages''}"
proof -
  have h: "run_calls [(''delete_email'', [(''email_id'', ''3'')], ''c1'')] initial_state =
     Some (initial_state\<lparr>messages := messages initial_state @ [ToolMessage ''Email 3 deleted.'' ''c1''],
                         processed_ids := processed_ids initial_state @ [''3'']\<rparr>)"
    by (simp add: call_tool_def run_delete_state initial_ids)
  show ?thesis
    using h inbox_constant [OF h, of "''3''" "''Sure''"
        "\<lparr>runtime_state = initial_state, tool_call_id = ''c1''\<rparr>"]
    by simp
qed

text \<open>
  Claim C6. When the target id matches no inbox entry, \<open>reply_to_email\<close> and
  \<open>delete_email\<close> return (they do not raise) a Command whose update holds only the
  message "Email with ID ... not found."; merging it leaves the inbox and the processed
  ids unchanged.
\<close>

theorem unknown_id_not_found:
  assumes "eid \<notin> set (map email_id (inbox s))"
  shows "reply_to_email eid body \<lparr>runtime_state = s, tool_call_id = cid\<rparr> =
      [(''messages'', MessagesValue [ToolMessage (''Email with ID '' @ eid @ '' not found.'') cid])]
    \<and> delete_email eid \<lparr>runtime_state = s, tool_call_id = cid\<rparr> =
      [(''messages'', MessagesValue [ToolMessage (''Email with ID '' @ eid @ '' not found.'') cid])]
    \<and> inbox (run_command (reply_to_email eid body) cid s) = inbox s
    \<and> processed_ids (run_command (reply_to_email eid body) cid s) = processed_ids s
    \<and> inbox (run_command (delete_email eid) cid s) = inbox s
    \<and> processed_ids (run_command (delete_email eid) cid s) = processed_ids s"
  using assms
  by (simp add: reply_not_found delete_not_found not_found_text_def run_reply_inbox
      run_reply_pids run_delete_state)

theorem unknown_id_not_found_witness:
  "''9'' \<notin> set (map email_id (inbox initial_state))
    \<and> reply_to_email ''9'' ''Hello'' \<lparr>runtime_state = initial_state, tool_call_id = ''c1''\<rparr> =
      [(''messages'', MessagesValue [ToolMessage ''Email with ID 9 not found.'' ''c1''])]
    \<and> delete_email ''9'' \<lparr>runtime_state = initial_state, tool_call_id = ''c1''\<rparr> =
      [(''messages'', MessagesValue [ToolMessage ''Email with ID 9 not found.'' ''c1''])]
    \<and> inbox (run_command (reply_to_email ''9'' ''Hello'') ''c1'' initial_state) = inbox initial_state
    \<and> processed_ids (run_command (reply_to_email ''9'' ''Hello'') ''c1'' initial_state) = []
    \<and> inbox (run_command (delete_email ''9'') ''c1'' initial_state) = inbox initial_state
    \<and> processed_ids (run_command (delete_email ''9'') ''c1'' initial_state) = []"
proof -
  have h: "''9'' \<notin> set (map email_id (inbox initial_state))"
    by (simp add: initial_ids)
  have p: "processed_ids initial_state = []"
    by (simp add: initial_state_def)
  show ?thesis
    using h p unknown_id_not_found [OF h, of "''Hello''" "''c1''"] by simp
qed

subsection \<open>Deleting and marking\<close>

lemma run_delete_pids:
  "processed_ids (run_command (delete_email eid) cid s) =
    (if eid \<in> set (map email_id (inbox s)) then processed_ids s @ [eid] else processed_ids s)"
  by (simp add: run_delete_state)

lemma run_delete_inbox: "inbox (run_command (delete_email eid) cid s) = inbox s"
  by (simp add: run_delete_state)

text \<open>
  Claim C1, as the code has it. For every delete request that is approved and whose
  target id is in the inbox, applying it leaves the inbox as it was and appends the id
  to \<open>processed_ids\<close>: afterwards the record is still among the lines that
  \<open>check_inbox\<close> builds, in its place and tagged \<open>[DONE]\<close>, and its id is in
  ProcessedSet.
\<close>

theorem approved_delete_marks_done:
  assumes "eid \<in> set (map email_id (inbox s))"
  shows "resolve \<lparr>request_name = ''delete_email'', request_args = [(''email_id'', eid)]\<rparr>
           Approve cid s = Some (run_command (delete_email eid) cid s)
    \<and> inbox (run_command (delete_email eid) cid s) = inbox s
    \<and> processed_ids (run_command (delete_email eid) cid s) = processed_ids s @ [eid]
    \<and> eid \<in> ProcessedSet (run_command (delete_email eid) cid s)
    \<and> check_inbox_loop (inbox (run_command (delete_email eid) cid s))
         (processed_ids (run_command (delete_email eid) cid s)) [] =
       map (\<lambda>e. (if email_id e = eid \<or> email_id e \<in> ProcessedSet s then ''[DONE]'' else ''[NEW]'')
                 @ '' ID:'' @ email_id e @ '' From:'' @ email_from e
                 @ '' Subject:'' @ email_subject e) (inbox s)"
  using assms
  by (auto simp add: resolve_def call_tool_def run_delete_inbox run_delete_pids ProcessedSet_def
      check_inbox_loop_map inbox_line_status)

theorem approved_delete_marks_done_witness:
  "''3'' \<in> set (map email_id (inbox initial_state))
    \<and> resolve \<lparr>request_name = ''delete_email'', request_args = [(''email_id'', ''3'')]\<rparr>
           Approve ''c1'' initial_state = Some (run_command (delete_email ''3'') ''c1'' initial_state)
    \<and> inbox (run_command (delete_email ''3'') ''c1'' initial_state) = inbox initial_state
    \<and> processed_ids (run_command (delete_email ''3'') ''c1'' initial_state) = [''3'']
    \<and> ''3'' \<in> ProcessedSet (run_command (delete_email ''3'') ''c1'' initial_state)"
proof -
  have h: "''3'' \<in> set (map email_id (inbox initial_state))"
    by (simp add: initial_ids)
  have p: "processed_ids initial_state = []"
    by (simp add: initial_state_def)
  show ?thesis
    using h p approved_delete_marks_done [OF h, of "''c1''"] by simp
qed

text \<open>
  Claim C1 as stated says that the record is absent from the listing afterwards. On the
  sample inbox, after the approved deletion of email 3 the inbox still has five entries
  and the listing still has the line of email 3.
\<close>

theorem approved_delete_counterexample:
  "resolve \<lparr>request_name = ''delete_email'', request_args = [(''email_id'', ''3'')]\<rparr>
      Approve ''c1'' initial_state = Some (run_command (delete_email ''3'') ''c1'' initial_state)
   \<and> length (inbox (run_command (delete_email ''3'') ''c1'' initial_state)) = 5
   \<and> check_inbox \<lparr>runtime_state = run_command (delete_email ''3'') ''c1'' initial_state,
                   tool_call_id = ''c2''\<rparr> =
       ''[NEW] ID:1 From:jane@example.com Subject:Coffee this weekend?'' @ [CHR 0x0A]
       @ ''[NEW] ID:2 From:boss@company.com Subject:Q3 Report Review'' @ [CHR 0x0A]
       @ ''[DONE] ID:3 From:deals@spammy-cruises.biz Subject:YOU WON A FREE CRUISE!!!'' @ [CHR 0x0A]
       @ ''[NEW] ID:4 From:mike@example.com Subject:Hike on Sunday?'' @ [CHR 0x0A]
       @ ''[NEW] ID:5 From:hr@company.com Subject:Mandatory Compliance Training Reminder''"
proof -
  have a: "resolve \<lparr>request_name = ''delete_email'', request_args = [(''email_id'', ''3'')]\<rparr>
      Approve ''c1'' initial_state = Some (run_command (delete_email ''3'') ''c1'' initial_state)"
    by (simp add: resolve_def call_tool_def)
  have s: "run_command (delete_email ''3'') ''c1'' initial_state =
    initial_state\<lparr>messages := messages initial_state @ [ToolMessage ''Email 3 deleted.'' ''c1''],
                  processed_ids := [''3'']\<rparr>"
    by (simp add: run_delete_state initial_ids) (simp add: initial_state_def)
  have i: "inbox initial_state = SAMPLE_INBOX"
    by (simp add: initial_state_def)
  show ?thesis
    unfolding s
    by (simp add: a[unfolded s] i check_inbox_def check_inbox_loop_map inbox_line_def SAMPLE_INBOX_def)
qed

text \<open>
  Claim C2. Marking an id processed is what \<open>reply_to_email\<close> and \<open>delete_email\<close>
  do in their found branch: the id is appended to a copy of \<open>processed_ids\<close>. Doing it
  a second time, by either tool after either tool, gives the same ProcessedSet as doing
  it once, and the same count of remaining emails. (The list gets the id a second time;
  the set it stands for does not change.)
\<close>

theorem mark_processed_idempotent:
  "ProcessedSet (run_command (delete_email eid) c2 (run_command (delete_email eid) c1 s)) =
     ProcessedSet (run_command (delete_email eid) c1 s)
   \<and> ProcessedSet (run_command (reply_to_email eid b2) c2 (run_command (reply_to_email eid b1) c1 s)) =
     ProcessedSet (run_command (reply_to_email eid b1) c1 s)
   \<and> ProcessedSet (run_command (delete_email eid) c2 (run_command (reply_to_email eid b1) c1 s)) =
     ProcessedSet (run_command (reply_to_email eid b1) c1 s)
   \<and> ProcessedSet (run_command (reply_to_email eid b2) c2 (run_command (delete_email eid) c1 s)) =
     ProcessedSet (run_command (delete_email eid) c1 s)
   \<and> remaining (run_command (delete_email eid) c2 (run_command (delete_email eid) c1 s)) =
     remaining (run_command (delete_email eid) c1 s)
   \<and> remaining (run_command (reply_to_email eid b2) c2 (run_command (reply_to_email eid b1) c1 s)) =
     remaining (run_command (reply_to_email eid b1) c1 s)"
  by (simp add: ProcessedSet_def remaining_def run_delete_pids run_delete_inbox run_reply_pids
      run_reply_inbox)

subsection \<open>Decisions of the operator\<close>

lemma dict_set_in_place:
  "k \<notin> fst ` set done \<Longrightarrow> dict_set (done @ (k, v) # rest) k nv = done @ (k, nv) # rest"
  by (induction "done") auto

lemma edit_loop_zip:
  "distinct (map fst (done @ todo)) \<Longrightarrow> length vs = length todo \<Longrightarrow>
   edit_loop (map fst todo) (done @ todo) (vs @ ins) =
     Inr (done @ map (\<lambda>((k, v), l). (k, if strip l = [] then v else strip l)) (zip todo vs), ins)"
proof (induction todo arbitrary: "done" vs)
  case Nil
  then show ?case by simp
next
  case (Cons p todo)
  obtain k v where p: "p = (k, v)" by (cases p)
  from Cons.prems(2) obtain l vs' where vs: "vs = l # vs'" and len: "length vs' = length todo"
    by (cases vs) auto
  from Cons.prems(1) p have fresh: "k \<notin> fst ` set done"
    by auto
  define nv where "nv = (if strip l = [] then v else strip l)"
  have step: "(if strip l \<noteq> [] then dict_set (done @ (k, v) # todo) k (strip l)
              else done @ (k, v) # todo) = (done @ [(k, nv)]) @ todo"
    by (simp add: nv_def dict_set_in_place[OF fresh])
  have dist: "distinct (map fst ((done @ [(k, nv)]) @ todo))"
    using Cons.prems(1) p by simp
  have "edit_loop (map fst (p # todo)) (done @ p # todo) (vs @ ins) =
        edit_loop (map fst todo) ((done @ [(k, nv)]) @ todo) (vs' @ ins)"
    unfolding p vs using step by (simp add: Let_def)
  also have "\<dots> = Inr ((done @ [(k, nv)])
      @ map (\<lambda>((k, v), l). (k, if strip l = [] then v else strip l)) (zip todo vs'), ins)"
    by (rule Cons.IH[OF dist len])
  finally show ?case
    by (simp add: p vs nv_def)
qed

lemma run_reply_found:
  "find_recipient (inbox s) eid = Some recipient \<Longrightarrow>
   run_command (reply_to_email eid body) cid s =
     s\<lparr>messages := messages s @ [ToolMessage (''Reply sent to '' @ recipient @ '': '' @ body) cid],
       processed_ids := processed_ids s @ [eid]\<rparr>"
  by (simp add: run_command_def apply_update_def reply_to_email_def)

lemma resolve_edit_reply:
  "map_of args ''email_id'' = Some eid \<Longrightarrow> map_of args ''body'' = Some body \<Longrightarrow>
   resolve action (Edit ''reply_to_email'' args) cid s =
     Some (run_command (reply_to_email eid body) cid s)"
  by (simp add: resolve_def call_tool_def)

text \<open>
  Claim C3, as the code has it. For every edit decision on a request whose argument
  keys are distinct, the edited action keeps the tool name and the keys in their order,
  and every argument takes its input line stripped of white space when that is not
  empty and keeps its original value when it is; this holds for every argument, the
  target \<open>email_id\<close> included. The applied action is the tool run on these substituted
  arguments: for an edited reply whose target is in the inbox, the message recorded as
  sent carries the body as edited, and the id marked processed is the id as edited.
\<close>

theorem edit_overrides_arguments:
  assumes "lower (strip l) = ''e''"
    and "distinct (map fst args)"
    and "length vs = length args"
  shows "prompt_decision \<lparr>request_name = nm, request_args = args\<rparr> (l # vs @ ins) =
      Inr (Edit nm (map (\<lambda>((k, v), l). (k, if strip l = [] then v else strip l)) (zip args vs)), ins)
    \<and> resolve \<lparr>request_name = nm, request_args = args\<rparr>
        (Edit nm (map (\<lambda>((k, v), l). (k, if strip l = [] then v else strip l)) (zip args vs))) cid s =
      call_tool nm (map (\<lambda>((k, v), l). (k, if strip l = [] then v else strip l)) (zip args vs)) cid s
    \<and> (nm = ''reply_to_email'' \<longrightarrow>
        map_of (map (\<lambda>((k, v), l). (k, if strip l = [] then v else strip l)) (zip args vs))
          ''email_id'' = Some eid \<longrightarrow>
        map_of (map (\<lambda>((k, v), l). (k, if strip l = [] then v else strip l)) (zip args vs))
          ''body'' = Some body \<longrightarrow>
        find_recipient (inbox s) eid = Some recipient \<longrightarrow>
        resolve \<lparr>request_name = nm, request_args = args\<rparr>
          (Edit nm (map (\<lambda>((k, v), l). (k, if strip l = [] then v else strip l)) (zip args vs))) cid s =
        Some (s\<lparr>messages := messages s
                  @ [ToolMessage (''Reply sent to '' @ recipient @ '': '' @ body) cid],
                processed_ids := processed_ids s @ [eid]\<rparr>))"
proof -
  have a: "prompt_decision \<lparr>request_name = nm, request_args = args\<rparr> (l # vs @ ins) =
      Inr (Edit nm (map (\<lambda>((k, v), l). (k, if strip l = [] then v else strip l)) (zip args vs)), ins)"
    using assms edit_loop_zip[of "[]" args vs ins] by (simp add: Let_def)
  have b: "resolve \<lparr>request_name = nm, request_args = args\<rparr> (Edit nm ed) cid s =
      call_tool nm ed cid s" for ed
    by (simp add: resolve_def)
  show ?thesis
    using a b by (auto simp add: resolve_edit_reply run_reply_found simp del: prompt_decision.simps)
qed

lemma strip_Nil: "strip [] = []"
  by code_simp

lemma lower_Nil: "lower [] = []"
  by (simp add: lower_def)

lemma sample_recipient_1: "find_recipient (inbox initial_state) ''1'' = Some ''jane@example.com''"
  by (simp add: initial_state_def SAMPLE_INBOX_def)

theorem edit_overrides_arguments_witness:
  "lower (strip ''E '') = ''e''
   \<and> distinct (map fst [(''email_id'', ''1''), (''body'', ''draft'')])
   \<and> length ['''', '' Sounds great, see you Saturday! ''] = length [(''email_id'', ''1''), (''body'', ''draft'')]
   \<and> prompt_decision \<lparr>request_name = ''reply_to_email'',
        request_args = [(''email_id'', ''1''), (''body'', ''draft'')]\<rparr>
        [''E '', '''', '' Sounds great, see you Saturday! '', ''a''] =
      Inr (Edit ''reply_to_email''
             [(''email_id'', ''1''), (''body'', ''Sounds great, see you Saturday!'')], [''a''])
   \<and> resolve \<lparr>request_name = ''reply_to_email'',
        request_args = [(''email_id'', ''1''), (''body'', ''draft'')]\<rparr>
        (Edit ''reply_to_email''
           [(''email_id'', ''1''), (''body'', ''Sounds great, see you Saturday!'')])
        ''c1'' initial_state =
      Some (initial_state\<lparr>messages := messages initial_state
              @ [ToolMessage ''Reply sent to jane@example.com: Sounds great, see you Saturday!'' ''c1''],
            processed_ids := processed_ids initial_state @ [''1'']\<rparr>)"
proof -
  have h1: "lower (strip ''E '') = ''e''"
    by code_simp
  have h2: "distinct (map fst [(''email_id'', ''1''), (''body'', ''draft'')])"
    by simp
  have h3: "length ['''', '' Sounds great, see you Saturday! '']
      = length [(''email_id'', ''1''), (''body'', ''draft'')]"
    by simp
  have s: "strip '' Sounds great, see you Saturday! '' = ''Sounds great, see you Saturday!''"
    by code_simp
  note t = edit_overrides_arguments [OF h1 h2 h3, of "''reply_to_email''" "[''a'']" "''c1''"
        initial_state "''1''" "''Sounds great, see you Saturday!''" "''jane@example.com''"]
  have p: "prompt_decision \<lparr>request_name = ''reply_to_email'',
        request_args = [(''email_id'', ''1''), (''body'', ''draft'')]\<rparr>
        [''E '', '''', '' Sounds great, see you Saturday! '', ''a''] =
      Inr (Edit ''reply_to_email''
             [(''email_id'', ''1''), (''body'', ''Sounds great, see you Saturday!'')], [''a''])"
    using t [THEN conjunct1] by (simp add: s strip_Nil)
  have r: "resolve \<lparr>request_name = ''reply_to_email'',
        request_args = [(''email_id'', ''1''), (''body'', ''draft'')]\<rparr>
        (Edit ''reply_to_email''
           [(''email_id'', ''1''), (''body'', ''Sounds great, see you Saturday!'')])
        ''c1'' initial_state =
      Some (initial_state\<lparr>messages := messages initial_state
              @ [ToolMessage ''Reply sent to jane@example.com: Sounds great, see you Saturday!'' ''c1''],
            processed_ids := processed_ids initial_state @ [''1'']\<rparr>)"
    using t [THEN conjunct2, THEN conjunct2] sample_recipient_1 by (simp add: s strip_Nil)
  show ?thesis
    using h1 p r by simp
qed

text \<open>
  Claim C3 as stated says that the target id is never editable. On a reply to email 1,
  the operator types \<open>2\<close> for \<open>email_id\<close> and leaves the body blank: the edited
  action targets email 2.
\<close>

theorem edit_target_id_counterexample:
  "prompt_decision \<lparr>request_name = ''reply_to_email'',
      request_args = [(''email_id'', ''1''), (''body'', ''draft'')]\<rparr> [''e'', ''2'', ''''] =
    Inr (Edit ''reply_to_email'' [(''email_id'', ''2''), (''body'', ''draft'')], [])"
  by code_simp

text \<open>
  Claim C4, as the code has it. For every input line that, stripped and lower-cased, is
  none of \<open>a\<close>, \<open>r\<close>, \<open>e\<close>, the loop does not prompt again: the decision for
  the request is approve, no further line is read for it, and for a batch of one request
  the decision submitted is approve.
\<close>

theorem unrecognized_choice_approves:
  assumes "lower (strip l) \<noteq> ''a''"
    and "lower (strip l) \<noteq> ''r''"
    and "lower (strip l) \<noteq> ''e''"
  shows "prompt_decision action (l # ins) = Inr (Approve, ins)
    \<and> resume_decisions [action] d0 (l # ins) = Inr ([Approve], ins)"
  using assms by (simp add: Let_def resume_decisions_def)

theorem unrecognized_choice_approves_witness:
  "lower (strip ''no'') \<noteq> ''a'' \<and> lower (strip ''no'') \<noteq> ''r'' \<and> lower (strip ''no'') \<noteq> ''e''
   \<and> prompt_decision \<lparr>request_name = ''delete_email'', request_args = [(''email_id'', ''3'')]\<rparr>
        [''no'', ''r'', ''keep it''] = Inr (Approve, [''r'', ''keep it''])
   \<and> resume_decisions [\<lparr>request_name = ''delete_email'', request_args = [(''email_id'', ''3'')]\<rparr>]
        None [''no'', ''r'', ''keep it''] = Inr ([Approve], [''r'', ''keep it''])"
proof -
  have v: "lower (strip ''no'') = ''no''"
    by code_simp
  have h1: "lower (strip ''no'') \<noteq> ''a''" and h2: "lower (strip ''no'') \<noteq> ''r''"
    and h3: "lower (strip ''no'') \<noteq> ''e''"
    by (simp_all add: v)
  show ?thesis
    using h1 h2 h3 unrecognized_choice_approves [OF h1 h2 h3,
        of "\<lparr>request_name = ''delete_email'', request_args = [(''email_id'', ''3'')]\<rparr>"
          "[''r'', ''keep it'']" None]
    by simp
qed

text \<open>
  Claim C4 as stated says that an unrecognized input leads to a new prompt and not to the
  destructive action. The operator answers \<open>no\<close> to the proposed deletion of email 3:
  approve is submitted, the lines that follow stay unread, and the approved deletion
  marks email 3 processed.
\<close>

theorem unrecognized_choice_counterexample:
  "resume_decisions [\<lparr>request_name = ''delete_email'', request_args = [(''email_id'', ''3'')]\<rparr>]
      None [''no'', ''r'', ''keep it''] = Inr ([Approve], [''r'', ''keep it''])
   \<and> resolve \<lparr>request_name = ''delete_email'', request_args = [(''email_id'', ''3'')]\<rparr>
        Approve ''c1'' initial_state =
      Some (initial_state\<lparr>messages := messages initial_state @ [ToolMessage ''Email 3 deleted.'' ''c1''],
                          processed_ids := [''3'']\<rparr>)"
proof -
  have a: "resume_decisions [\<lparr>request_name = ''delete_email'', request_args = [(''email_id'', ''3'')]\<rparr>]
      None [''no'', ''r'', ''keep it''] = Inr ([Approve], [''r'', ''keep it''])"
    by code_simp
  have b: "resolve \<lparr>request_name = ''delete_email'', request_args = [(''email_id'', ''3'')]\<rparr>
        Approve ''c1'' initial_state =
      Some (initial_state\<lparr>messages := messages initial_state @ [ToolMessage ''Email 3 deleted.'' ''c1''],
                          processed_ids := [''3'']\<rparr>)"
    by (simp add: resolve_def call_tool_def run_delete_state initial_ids) (simp add: initial_state_def)
  from a b show ?thesis by simp
qed

text \<open>
  White space outside ASCII is stripped too: a no-break space before \<open>r\<close> is a
  rejection, with the reason read from the next line.
\<close>

lemma nbsp_r_rejects:
  "prompt_decision action (([CHR 0xC2, CHR 0xA0] @ ''r'') # reason # ins) =
     Inr (Reject (strip reason), ins)"
proof -
  have "lower (strip ([CHR 0xC2, CHR 0xA0] @ ''r'')) = ''r''"
    by code_simp
  then show ?thesis
    by (simp add: Let_def)
qed

text \<open>
  Claim C5. One decision per request is what the \<open>for\<close> loop collects, but the value
  submitted is the one-element list of the last decision. With two pending requests, the
  first rejected and the second approved, the list submitted is \<open>[Approve]\<close>: one
  decision for two requests, and the rejection is lost.
\<close>

theorem two_requests_one_decision:
  "resume_decisions
     [\<lparr>request_name = ''reply_to_email'', request_args = [(''email_id'', ''1''), (''body'', ''Sure'')]\<rparr>,
      \<lparr>request_name = ''delete_email'', request_args = [(''email_id'', ''3'')]\<rparr>]
     None [''r'', ''not ready'', ''a''] = Inr ([Approve], [])"
  by code_simp



text \<open>Whatever the batch, the list submitted has exactly one decision.\<close>

lemma resume_decisions_single:
  "resume_decisions actions d ins = Inr (ds, ins') \<Longrightarrow> length ds = 1"
  by (auto simp add: resume_decisions_def split: sum.splits option.splits prod.splits)

text \<open>
  With no pending request in the first pass, \<open>decision\<close> is unbound when it is read.
\<close>

lemma empty_batch_name_error: "resume_decisions [] None ins = Inl NameError"
  by (simp add: resume_decisions_def)

text \<open>
  Claim C7. For every request that the operator rejects, the loop builds the decision
  \<open>Reject\<close> with the stripped reason, whatever the reason is; resolving it runs no
  tool: the inbox and the processed ids are as they were, and the reason only appears in
  the message surfaced to the runtime.
\<close>

theorem reject_changes_nothing:
  assumes "lower (strip l) = ''r''"
  shows "prompt_decision action (l # reason # ins) = Inr (Reject (strip reason), ins)
    \<and> resolve action (Reject (strip reason)) cid s =
        Some (s\<lparr>messages := messages s @ [ToolMessage (strip reason) cid]\<rparr>)
    \<and> inbox (s\<lparr>messages := messages s @ [ToolMessage (strip reason) cid]\<rparr>) = inbox s
    \<and> processed_ids (s\<lparr>messages := messages s @ [ToolMessage (strip reason) cid]\<rparr>) = processed_ids s"
  using assms by (simp add: Let_def resolve_def add_tool_text_def)

theorem reject_changes_nothing_witness:
  "lower (strip ''R'') = ''r''
   \<and> prompt_decision
       \<lparr>request_name = ''reply_to_email'',
        request_args = [(''email_id'', ''2''), (''body'', ''Thanks, will review'')]\<rparr>
       [''R'', ''not ready''] = Inr (Reject ''not ready'', [])
   \<and> resolve
       \<lparr>request_name = ''reply_to_email'',
        request_args = [(''email_id'', ''2''), (''body'', ''Thanks, will review'')]\<rparr>
       (Reject ''not ready'') ''c1'' initial_state =
       Some (initial_state\<lparr>messages := messages initial_state @ [ToolMessage ''not ready'' ''c1'']\<rparr>)
   \<and> inbox (initial_state\<lparr>messages := messages initial_state @ [ToolMessage ''not ready'' ''c1'']\<rparr>)
       = inbox initial_state
   \<and> processed_ids (initial_state\<lparr>messages := messages initial_state @ [ToolMessage ''not ready'' ''c1'']\<rparr>)
       = processed_ids initial_state"
proof -
  have h: "lower (strip ''R'') = ''r''"
    by code_simp
  have s: "strip ''not ready'' = ''not ready''"
    by code_simp
  show ?thesis
    using h reject_changes_nothing [OF h,
        of "\<lparr>request_name = ''reply_to_email'',
             request_args = [(''email_id'', ''2''), (''body'', ''Thanks, will review'')]\<rparr>"
          "''not ready''" "[]" "''c1''" initial_state]
    by (simp add: s)
qed

subsection \<open>The remaining count and the prompt\<close>

lemma filter_ids_card:
  "distinct (map email_id es) \<Longrightarrow>
   length (filter (\<lambda>e. email_id e \<in> P) es) = card (P \<inter> set (map email_id es))"
proof (induction es)
  case Nil
  then show ?case by simp
next
  case (Cons e es)
  then have fresh: "email_id e \<notin> set (map email_id es)"
    and ih: "length (filter (\<lambda>e. email_id e \<in> P) es) = card (P \<inter> set (map email_id es))"
    by simp_all
  show ?case
  proof (cases "email_id e \<in> P")
    case True
    then have "P \<inter> set (map email_id (e # es)) = insert (email_id e) (P \<inter> set (map email_id es))"
      by auto
    with fresh True ih show ?thesis by simp
  next
    case False
    then have "P \<inter> set (map email_id (e # es)) = P \<inter> set (map email_id es)"
      by auto
    with False ih show ?thesis by simp
  qed
qed

lemma remaining_split:
  "remaining s + length (filter (\<lambda>e. email_id e \<in> set (processed_ids s)) (inbox s))
     = length (inbox s)"
  using sum_length_filter_compl[of "\<lambda>e. email_id e \<in> set (processed_ids s)" "inbox s"]
  by (simp add: remaining_def)

lemma working_prompt_differs: "working_prompt n \<noteq> all_processed_prompt"
  by (simp add: working_prompt_def all_processed_prompt_def)

text \<open>
  Claim C8. For an inbox with distinct ids, the count \<open>remaining\<close> that
  \<open>inbox_prompt\<close> computes from the state is the number of inbox entries minus the
  number of processed ids that are ids of the inbox; the prompt is the "all processed"
  text exactly when the count is 0, and the working text with the count otherwise. The
  prompt function is a function of the state alone and returns text only.
\<close>

theorem remaining_count:
  assumes "distinct (map email_id (inbox s))"
  shows "int (remaining s) =
      int (length (inbox s)) - int (card (ProcessedSet s \<inter> set (map email_id (inbox s))))
    \<and> (inbox_prompt \<lparr>request_state = s\<rparr> = all_processed_prompt \<longleftrightarrow> remaining s = 0)
    \<and> (remaining s \<noteq> 0 \<longrightarrow> inbox_prompt \<lparr>request_state = s\<rparr> = working_prompt (remaining s))"
proof -
  have "remaining s + card (ProcessedSet s \<inter> set (map email_id (inbox s))) = length (inbox s)"
    using remaining_split[of s] filter_ids_card[OF assms, of "set (processed_ids s)"]
    by (simp add: ProcessedSet_def)
  then have "int (remaining s) =
      int (length (inbox s)) - int (card (ProcessedSet s \<inter> set (map email_id (inbox s))))"
    by linarith
  moreover have "inbox_prompt \<lparr>request_state = s\<rparr> = all_processed_prompt \<longleftrightarrow> remaining s = 0"
    by (simp add: inbox_prompt_def Let_def working_prompt_differs)
  moreover have "remaining s \<noteq> 0 \<longrightarrow> inbox_prompt \<lparr>request_state = s\<rparr> = working_prompt (remaining s)"
    by (simp add: inbox_prompt_def Let_def)
  ultimately show ?thesis by simp
qed

theorem remaining_count_witness:
  "distinct (map email_id (inbox (initial_state\<lparr>processed_ids := [''3'', ''7'']\<rparr>)))
   \<and> int (remaining (initial_state\<lparr>processed_ids := [''3'', ''7'']\<rparr>)) =
       int (length (inbox (initial_state\<lparr>processed_ids := [''3'', ''7'']\<rparr>)))
       - int (card (ProcessedSet (initial_state\<lparr>processed_ids := [''3'', ''7'']\<rparr>)
           \<inter> set (map email_id (inbox (initial_state\<lparr>processed_ids := [''3'', ''7'']\<rparr>)))))
   \<and> remaining (initial_state\<lparr>processed_ids := [''3'', ''7'']\<rparr>) = 4
   \<and> inbox_prompt \<lparr>request_state = initial_state\<lparr>processed_ids := [''3'', ''7'']\<rparr>\<rparr>
       = working_prompt 4
   \<and> inbox_prompt \<lparr>request_state = initial_state\<lparr>processed_ids := [''3'', ''7'']\<rparr>\<rparr>
       \<noteq> all_processed_prompt"
proof -
  have h: "distinct (map email_id (inbox (initial_state\<lparr>processed_ids := [''3'', ''7'']\<rparr>)))"
    by (simp add: initial_ids)
  have r: "remaining (initial_state\<lparr>processed_ids := [''3'', ''7'']\<rparr>) = 4"
    by (simp add: remaining_def initial_state_def SAMPLE_INBOX_def)
  show ?thesis
    using h r remaining_count [OF h] by (simp add: working_prompt_differs)
qed


end
